theory Spec2Isabelle
  imports Main "HOL-Library.Word"
begin

section \<open>Data model of musicListnerApi.go\<close>

text \<open>
  The three structs of the source.  Go allows the field names \<open>ID\<close> and \<open>Name\<close> in
  every struct; a record field name is global here, so these two carry the struct's
  name as a prefix.  All other fields keep their names.  A Go slice value is modelled
  by the list of its visible elements (a nil slice and an empty slice are both
  \<open>[]\<close>; every handler treats them alike).
\<close>

record Song =
  SongID :: string
  SongName :: string
  Composer :: string
  URL :: string

record Playlist =
  PlaylistID :: string
  PlaylistName :: string
  Songs :: "Song list"

record User =
  UserID :: string
  SecretCode :: string
  UserName :: string
  Email :: string
  Playlists :: "Playlist list"

text \<open>
  The package-level variables.  \<open>users\<close> is keyed by secret code, \<open>playlists\<close> by
  playlist identifier.  \<open>randSrc\<close> is the pseudo-random source: seeded once, it is a
  fixed infinite sequence of 63-bit values, of which \<open>randSrc 0\<close> is the next one
  to be drawn.  The generator itself belongs to the Go library, so the sequence is a
  parameter of the model.  The mutex \<open>mu\<close> is held by every handler from entry to
  return, so a handler is one atomic transition on this state.
\<close>

type_synonym rngSource = "nat \<Rightarrow> 63 word"

record state =
  users :: "string \<rightharpoonup> User"
  playlists :: "string \<rightharpoonup> Playlist"
  randSrc :: rngSource

definition initial :: "rngSource \<Rightarrow> state" where
  "initial src = \<lparr>users = Map.empty, playlists = Map.empty, randSrc = src\<rparr>"

section \<open>Errors\<close>

text \<open>
  \<open>sendError\<close> writes a status code and a message.  The four error kinds are read off
  these two: status 401 is \<open>NotAuthorized\<close>, status 404 is \<open>NotFound\<close>, status 400
  with the message of the empty-playlist guard is \<open>InvariantViolation\<close>, and any
  other status 400 is \<open>BadRequest\<close>.
\<close>

datatype error = NotAuthorized | NotFound | InvariantViolation | BadRequest

definition StatusBadRequest :: nat where "StatusBadRequest = 400"
definition StatusUnauthorized :: nat where "StatusUnauthorized = 401"
definition StatusNotFound :: nat where "StatusNotFound = 404"

definition sendError :: "string \<Rightarrow> nat \<Rightarrow> error" where
  "sendError message statusCode =
     (if statusCode = StatusUnauthorized then NotAuthorized
      else if statusCode = StatusNotFound then NotFound
      else if message = ''Playlist cannot be empty'' then InvariantViolation
      else BadRequest)"

section \<open>Identifier generation\<close>

text \<open>\<open>fmt.Sprintf("%d", n)\<close> for a non-negative \<open>n\<close>: the decimal digits of \<open>n\<close>.\<close>

fun decimal :: "nat \<Rightarrow> string" where
  "decimal n =
     (if n < 10 then [''0123456789'' ! n]
      else decimal (n div 10) @ [''0123456789'' ! (n mod 10)])"

declare decimal.simps [simp del]

text \<open>\<open>generateID\<close> draws the next value of the source and advances it.\<close>

definition generateID :: "rngSource \<Rightarrow> string \<times> rngSource" where
  "generateID src = (decimal (unat (src 0)), \<lambda>n. src (Suc n))"

section \<open>Slices that share a backing array\<close>

text \<open>
  \<open>append(a[:j], a[j+1:]...)\<close> never allocates: the result has one element less than
  \<open>a\<close>, so it fits the capacity of \<open>a[:j]\<close>, and \<open>append\<close> copies the tail one cell to
  the left inside the backing array of \<open>a\<close>.  \<open>copy_cells arr off src\<close> is the array
  after \<open>src\<close> has been copied to the cells from \<open>off\<close> on (Go's copy reads the whole
  source before it overwrites, so overlapping ranges are safe).  \<open>delete_at_array\<close> is
  the first \<open>length a\<close> cells of the backing array after the call, which is what a
  slice header taken before the call still sees; \<open>delete_at\<close> is the slice the call
  returns, one element shorter.

  Only \<open>deleteSongFromPlaylist\<close> looks through such an old header (its loop variable
  \<open>playlist\<close>).  Everywhere else a slice is reached through the one header stored
  last: a request body decodes into arrays of its own, every handler stores the
  header that \<open>append\<close> returned, and the cells beyond a stored length are written
  by the next \<open>append\<close> before any header shows them.  So a stored slice is given by
  the list of its visible elements.
\<close>

definition copy_cells :: "'a list \<Rightarrow> nat \<Rightarrow> 'a list \<Rightarrow> 'a list" where
  "copy_cells arr off src = take off arr @ src @ drop (off + length src) arr"

definition delete_at_array :: "'a list \<Rightarrow> nat \<Rightarrow> 'a list" where
  "delete_at_array a j = copy_cells a j (drop (Suc j) a)"

definition delete_at :: "'a list \<Rightarrow> nat \<Rightarrow> 'a list" where
  "delete_at a j = take (j + length (drop (Suc j) a)) (delete_at_array a j)"

section \<open>Loops\<close>

text \<open>
  \<open>for i, playlist := range user.Playlists { if playlist.ID == playlistID { ... return } }\<close>:
  the index of the first playlist whose identifier matches, counted from \<open>i\<close>.
\<close>

fun playlist_index :: "string \<Rightarrow> Playlist list \<Rightarrow> nat \<Rightarrow> nat option" where
  "playlist_index playlistID [] i = None"
| "playlist_index playlistID (playlist # rest) i =
     (if PlaylistID playlist = playlistID then Some i
      else playlist_index playlistID rest (Suc i))"

text \<open>
  \<open>for j, song := range playlist.Songs { if song.ID == songID { ... return } }\<close>:
  the index of the first song whose identifier matches, counted from \<open>j\<close>.
\<close>

fun song_index :: "string \<Rightarrow> Song list \<Rightarrow> nat \<Rightarrow> nat option" where
  "song_index songID [] j = None"
| "song_index songID (song # rest) j =
     (if SongID song = songID then Some j else song_index songID rest (Suc j))"

text \<open>
  The nested loops of \<open>deleteSongFromPlaylist\<close>.  A playlist with a matching
  identifier and exactly one song ends the scan with the guard's error; one that
  holds a matching song ends it at that song; a matching playlist without the song
  does not end the scan, the outer loop goes on to the next playlist.
\<close>

datatype delete_scan = SoleSong | Hit nat nat | NoMatch

fun delete_song_scan :: "string \<Rightarrow> string \<Rightarrow> Playlist list \<Rightarrow> nat \<Rightarrow> delete_scan" where
  "delete_song_scan playlistID songID [] i = NoMatch"
| "delete_song_scan playlistID songID (playlist # rest) i =
     (if PlaylistID playlist = playlistID then
        (if length (Songs playlist) = 1 then SoleSong
         else (case song_index songID (Songs playlist) 0 of
                 Some j \<Rightarrow> Hit i j
               | None \<Rightarrow> delete_song_scan playlistID songID rest (Suc i)))
      else delete_song_scan playlistID songID rest (Suc i))"

text \<open>The nested loops of \<open>getSongDetail\<close>: the first matching song, playlists in
  stored order, songs in playlist order.\<close>

fun song_scan :: "string \<Rightarrow> Song list \<Rightarrow> Song option" where
  "song_scan songID [] = None"
| "song_scan songID (song # rest) =
     (if SongID song = songID then Some song else song_scan songID rest)"

fun playlists_scan :: "string \<Rightarrow> Playlist list \<Rightarrow> Song option" where
  "playlists_scan songID [] = None"
| "playlists_scan songID (playlist # rest) =
     (case song_scan songID (Songs playlist) of
        Some song \<Rightarrow> Some song
      | None \<Rightarrow> playlists_scan songID rest)"

section \<open>Handlers\<close>

text \<open>
  A handler takes the state and the parameters the Go code reads from the request
  and returns what it writes to the response together with the state it leaves.  A
  request body is \<open>None\<close> when \<open>Decode\<close> returns an error and \<open>Some v\<close> when it
  decodes to \<open>v\<close>; every field of \<open>v\<close> is under the caller's control.
\<close>

definition loginHandler :: "state \<Rightarrow> string \<Rightarrow> (error + User) \<times> state" where
  "loginHandler s secretCode =
     (case users s secretCode of
        Some user \<Rightarrow> (Inr user, s)
      | None \<Rightarrow> (Inl (sendError ''Invalid secret code'' StatusUnauthorized), s))"

definition defaultSong :: "string \<Rightarrow> Song" where
  "defaultSong ident =
     \<lparr>SongID = ident, SongName = ''Default Song'', Composer = ''Default Composer'',
      URL = ''http://default.url''\<rparr>"

definition registerHandler :: "state \<Rightarrow> User option \<Rightarrow> (error + User) \<times> state" where
  "registerHandler s body =
     (case body of
        None \<Rightarrow> (Inl (sendError ''Invalid request body'' StatusBadRequest), s)
      | Some decoded \<Rightarrow>
          (let (id1, src1) = generateID (randSrc s);
               (id2, src2) = generateID src1;
               (id3, src3) = generateID src2;
               (id4, src4) = generateID src3;
               user = decoded\<lparr>UserID := id1, SecretCode := id2\<rparr>;
               defaultPlaylist =
                 \<lparr>PlaylistID = id3, PlaylistName = ''Default'', Songs = [defaultSong id4]\<rparr>;
               user = user\<lparr>Playlists := Playlists user @ [defaultPlaylist]\<rparr>
           in (Inr user,
               s\<lparr>users := (users s)(SecretCode user \<mapsto> user), randSrc := src4\<rparr>)))"

definition createPlaylist :: "state \<Rightarrow> string \<Rightarrow> string \<Rightarrow> (error + Playlist) \<times> state" where
  "createPlaylist s secretCode playlistName =
     (case users s secretCode of
        Some user \<Rightarrow>
          (let (id1, src1) = generateID (randSrc s);
               (id2, src2) = generateID src1;
               newPlaylist =
                 \<lparr>PlaylistID = id1, PlaylistName = playlistName, Songs = [defaultSong id2]\<rparr>;
               user = user\<lparr>Playlists := Playlists user @ [newPlaylist]\<rparr>
           in (Inr newPlaylist,
               s\<lparr>users := (users s)(secretCode \<mapsto> user), randSrc := src2\<rparr>))
      | None \<Rightarrow> (Inl (sendError ''Invalid secret code'' StatusUnauthorized), s))"

text \<open>
  In \<open>deleteSongFromPlaylist\<close> the loop variable \<open>playlist\<close> is a copy of
  \<open>user.Playlists[i]\<close> made before the removal, and its \<open>Songs\<close> is a slice header
  over the same backing array as the stored one.  The assignment stores the shortened
  slice in \<open>user.Playlists[i]\<close>; the response encodes \<open>playlist\<close>, that is the old
  header (old length) over the array as the removal left it.
\<close>

definition deleteSongFromPlaylist ::
  "state \<Rightarrow> string \<Rightarrow> string \<Rightarrow> string \<Rightarrow> (error + Playlist) \<times> state" where
  "deleteSongFromPlaylist s secretCode songID playlistID =
     (case users s secretCode of
        Some user \<Rightarrow>
          (case delete_song_scan playlistID songID (Playlists user) 0 of
             SoleSong \<Rightarrow> (Inl (sendError ''Playlist cannot be empty'' StatusBadRequest), s)
           | Hit i j \<Rightarrow>
               (let playlist = Playlists user ! i;
                    stored = playlist\<lparr>Songs := delete_at (Songs playlist) j\<rparr>;
                    user = user\<lparr>Playlists := (Playlists user)[i := stored]\<rparr>;
                    playlist = playlist\<lparr>Songs := delete_at_array (Songs playlist) j\<rparr>
                in (Inr playlist, s\<lparr>users := (users s)(secretCode \<mapsto> user)\<rparr>))
           | NoMatch \<Rightarrow> (Inl (sendError ''Invalid request'' StatusBadRequest), s))
      | None \<Rightarrow> (Inl (sendError ''Invalid request'' StatusBadRequest), s))"

definition viewProfile :: "state \<Rightarrow> string \<Rightarrow> (error + User) \<times> state" where
  "viewProfile s secretCode =
     (case users s secretCode of
        Some user \<Rightarrow> (Inr user, s)
      | None \<Rightarrow> (Inl (sendError ''Invalid secret code'' StatusUnauthorized), s))"

definition addSongToPlaylist ::
  "state \<Rightarrow> string \<Rightarrow> string \<Rightarrow> Song option \<Rightarrow> (error + Song) \<times> state" where
  "addSongToPlaylist s secretCode playlistID body =
     (case body of
        None \<Rightarrow> (Inl (sendError ''Invalid request body'' StatusBadRequest), s)
      | Some decoded \<Rightarrow>
          (case users s secretCode of
             Some user \<Rightarrow>
               (case playlist_index playlistID (Playlists user) 0 of
                  Some i \<Rightarrow>
                    (let playlist = Playlists user ! i;
                         (id1, src1) = generateID (randSrc s);
                         newSong = decoded\<lparr>SongID := id1\<rparr>;
                         stored = playlist\<lparr>Songs := Songs playlist @ [newSong]\<rparr>;
                         user = user\<lparr>Playlists := (Playlists user)[i := stored]\<rparr>
                     in (Inr newSong,
                         s\<lparr>users := (users s)(secretCode \<mapsto> user), randSrc := src1\<rparr>))
                | None \<Rightarrow> (Inl (sendError ''Invalid playlist ID'' StatusNotFound), s))
           | None \<Rightarrow> (Inl (sendError ''Invalid secret code'' StatusUnauthorized), s)))"

definition deletePlaylist :: "state \<Rightarrow> string \<Rightarrow> string \<Rightarrow> (error + User) \<times> state" where
  "deletePlaylist s secretCode playlistID =
     (case users s secretCode of
        Some user \<Rightarrow>
          (case playlist_index playlistID (Playlists user) 0 of
             Some i \<Rightarrow>
               (let user = user\<lparr>Playlists := delete_at (Playlists user) i\<rparr>
                in (Inr user, s\<lparr>users := (users s)(secretCode \<mapsto> user)\<rparr>))
           | None \<Rightarrow> (Inl (sendError ''Invalid playlist ID'' StatusNotFound), s))
      | None \<Rightarrow> (Inl (sendError ''Invalid secret code'' StatusUnauthorized), s))"

definition getSongDetail :: "state \<Rightarrow> string \<Rightarrow> string \<Rightarrow> (error + Song) \<times> state" where
  "getSongDetail s secretCode songID =
     (case users s secretCode of
        Some user \<Rightarrow>
          (case playlists_scan songID (Playlists user) of
             Some song \<Rightarrow> (Inr song, s)
           | None \<Rightarrow> (Inl (sendError ''Invalid song ID'' StatusNotFound), s))
      | None \<Rightarrow> (Inl (sendError ''Invalid secret code'' StatusUnauthorized), s))"

section \<open>The service as a transition system\<close>

text \<open>The routes registered in \<open>main\<close>, each with the parameters its handler reads.\<close>

datatype request =
    Login string
  | Register "User option"
  | ViewProfile string
  | CreatePlaylist string string
  | DeleteSongFromPlaylist string string string
  | AddSongToPlaylist string string "Song option"
  | DeletePlaylist string string
  | GetSongDetail string string

datatype response = UserBody User | PlaylistBody Playlist | SongBody Song

fun serve :: "state \<Rightarrow> request \<Rightarrow> (error + response) \<times> state" where
  "serve s (Login secretCode) = map_prod (map_sum id UserBody) id (loginHandler s secretCode)"
| "serve s (Register body) = map_prod (map_sum id UserBody) id (registerHandler s body)"
| "serve s (ViewProfile secretCode) =
     map_prod (map_sum id UserBody) id (viewProfile s secretCode)"
| "serve s (CreatePlaylist secretCode playlistName) =
     map_prod (map_sum id PlaylistBody) id (createPlaylist s secretCode playlistName)"
| "serve s (DeleteSongFromPlaylist secretCode songID playlistID) =
     map_prod (map_sum id PlaylistBody) id
       (deleteSongFromPlaylist s secretCode songID playlistID)"
| "serve s (AddSongToPlaylist secretCode playlistID body) =
     map_prod (map_sum id SongBody) id (addSongToPlaylist s secretCode playlistID body)"
| "serve s (DeletePlaylist secretCode playlistID) =
     map_prod (map_sum id UserBody) id (deletePlaylist s secretCode playlistID)"
| "serve s (GetSongDetail secretCode songID) =
     map_prod (map_sum id SongBody) id (getSongDetail s secretCode songID)"

text \<open>The states the service can be in: it starts with both maps empty and any
  seeded source, and every request moves it to the state its handler leaves.\<close>

inductive reachable :: "state \<Rightarrow> bool" where
  reachable_initial: "reachable (initial src)"
| reachable_serve: "reachable s \<Longrightarrow> reachable (snd (serve s req))"

text \<open>Running a list of requests in order from a state.\<close>

fun run :: "state \<Rightarrow> request list \<Rightarrow> state" where
  "run s [] = s"
| "run s (req # reqs) = run (snd (serve s req)) reqs"

section \<open>Notions used in the statements\<close>

text \<open>
  \<open>draw src k\<close> is the identifier that the \<open>k\<close>-th coming call of \<open>generateID\<close>
  returns and \<open>advance src k\<close> is the source after \<open>k\<close> calls.
\<close>

definition draw :: "rngSource \<Rightarrow> nat \<Rightarrow> string" where
  "draw src k = decimal (unat (src k))"

definition advance :: "rngSource \<Rightarrow> nat \<Rightarrow> rngSource" where
  "advance src k = (\<lambda>n. src (n + k))"

text \<open>
  The lookup of a song as the specification words it: the user is found by secret
  code; the songs of all the user's playlists are laid out playlist after playlist,
  each in its own order, and the first one with the identifier is the answer.
\<close>

definition getSongDetail_spec :: "state \<Rightarrow> string \<Rightarrow> string \<Rightarrow> error + Song" where
  "getSongDetail_spec s secretCode songID =
     (case users s secretCode of
        None \<Rightarrow> Inl NotAuthorized
      | Some user \<Rightarrow>
          (case find (\<lambda>song. SongID song = songID) (concat (map Songs (Playlists user))) of
             Some song \<Rightarrow> Inr song
           | None \<Rightarrow> Inl NotFound))"

text \<open>The invariant of the data model: no stored playlist is without songs.\<close>

definition nonempty_playlists :: "state \<Rightarrow> bool" where
  "nonempty_playlists s \<longleftrightarrow>
     (\<forall>secretCode user. users s secretCode = Some user \<longrightarrow>
        (\<forall>p\<in>set (Playlists user). Songs p \<noteq> []))"

section \<open>Concrete runs\<close>

text \<open>
  A source that yields 0, 1, 2, ... and a service started on it.  \<open>registered ps\<close> is
  the state after one registration whose body carries the playlists \<open>ps\<close>: the user
  gets identifier 0 and secret code 1, the default playlist identifier 2 and its song
  identifier 3.  \<open>after_add\<close> is the state after a registration without playlists and
  one song added to the default playlist.  \<open>twins xs ys\<close> is the state after a
  registration whose body carries two playlists with the same identifier.
\<close>

definition counting :: rngSource where
  "counting = (\<lambda>n. of_nat n)"

definition ann :: User where
  "ann = \<lparr>UserID = ''id'', SecretCode = ''code'', UserName = ''ann'',
          Email = ''ann@example.org'', Playlists = []\<rparr>"

definition tune :: "string \<Rightarrow> Song" where
  "tune ident = \<lparr>SongID = ident, SongName = ''Tune'', Composer = ''Someone'',
                 URL = ''http://tune.url''\<rparr>"

definition registered :: "Playlist list \<Rightarrow> state" where
  "registered ps = run (initial counting) [Register (Some (ann\<lparr>Playlists := ps\<rparr>))]"

definition after_add :: state where
  "after_add = run (registered []) [AddSongToPlaylist ''1'' ''2'' (Some (tune ''mine''))]"

definition twins :: "Song list \<Rightarrow> Song list \<Rightarrow> state" where
  "twins xs ys = registered [\<lparr>PlaylistID = ''p'', PlaylistName = ''one'', Songs = xs\<rparr>,
                             \<lparr>PlaylistID = ''p'', PlaylistName = ''two'', Songs = ys\<rparr>]"

section \<open>Basic facts\<close>

lemma sendError_simps:
  "sendError message StatusUnauthorized = NotAuthorized"
  "sendError message StatusNotFound = NotFound"
  "sendError ''Playlist cannot be empty'' StatusBadRequest = InvariantViolation"
  "sendError ''Invalid request'' StatusBadRequest = BadRequest"
  "sendError ''Invalid request body'' StatusBadRequest = BadRequest"
  by (simp_all add: sendError_def StatusUnauthorized_def StatusNotFound_def StatusBadRequest_def)

lemma generateID_draw: "generateID src = (draw src 0, advance src 1)"
  by (simp add: generateID_def draw_def advance_def)

lemma draw_advance: "draw (advance src k) n = draw src (n + k)"
  by (simp add: draw_def advance_def)

lemma advance_advance: "advance (advance src k) m = advance src (m + k)"
  by (simp add: advance_def add.assoc)

text \<open>Reading a numeral back gives the number, so \<open>decimal\<close> is injective and two draws
  give the same identifier exactly when the source repeats a value.\<close>

lemma digit_value: "d < 10 \<Longrightarrow> (of_char (''0123456789'' ! d) :: nat) = 48 + d"
proof -
  assume "d < 10"
  then have "d \<in> {0, 1, 2, 3, 4, 5, 6, 7, 8, 9}" by auto
  then show ?thesis by auto
qed

lemma foldl_decimal:
  "foldl (\<lambda>a c. 10 * a + (of_char c - 48)) 0 (decimal n) = n"
proof (induction n rule: decimal.induct)
  case (1 n)
  show ?case
  proof (cases "n < 10")
    case True
    then show ?thesis by (subst decimal.simps) (simp add: digit_value)
  next
    case False
    with 1 have "foldl (\<lambda>a c. 10 * a + (of_char c - 48)) 0 (decimal (n div 10)) = n div 10"
      by simp
    with False show ?thesis
      by (subst decimal.simps) (simp add: digit_value)
  qed
qed

lemma decimal_inject: "decimal m = decimal n \<longleftrightarrow> m = n"
  by (metis foldl_decimal)

lemma draw_inject: "draw src a = draw src b \<longleftrightarrow> src a = src b"
  by (simp add: draw_def decimal_inject word_unat_eq_iff)

lemma delete_at_eq: "j < length a \<Longrightarrow> delete_at a j = take j a @ drop (Suc j) a"
  by (simp add: delete_at_def delete_at_array_def copy_cells_def)

lemma length_delete_at: "j < length a \<Longrightarrow> length (delete_at a j) = length a - 1"
  by (simp add: delete_at_eq)

lemma length_delete_at_array: "j < length a \<Longrightarrow> length (delete_at_array a j) = length a"
  by (simp add: delete_at_array_def copy_cells_def)

lemma delete_at_array_eq:
  "j < length a \<Longrightarrow> delete_at_array a j = delete_at a j @ [last a]"
proof -
  assume j: "j < length a"
  then have "a \<noteq> []" by auto
  then have "drop (length a - 1) a = [last a]"
    by (induction a rule: rev_induct) simp_all
  moreover from j have "j + (length a - Suc j) = length a - 1" by simp
  ultimately show ?thesis using j
    by (simp add: delete_at_eq delete_at_array_def copy_cells_def)
qed

subsection \<open>The loops\<close>

lemma song_index_None: "song_index songID songs n = None \<longleftrightarrow> (\<forall>x\<in>set songs. SongID x \<noteq> songID)"
  by (induction songs arbitrary: n) simp_all

lemma song_index_Some:
  "song_index songID songs n = Some m \<Longrightarrow>
   \<exists>j. m = n + j \<and> j < length songs \<and> SongID (songs ! j) = songID \<and>
       (\<forall>k<j. SongID (songs ! k) \<noteq> songID)"
proof (induction songs arbitrary: n)
  case Nil
  then show ?case by simp
next
  case (Cons x xs)
  show ?case
  proof (cases "SongID x = songID")
    case True
    with Cons.prems have "m = n" by simp
    with True show ?thesis by (intro exI [of _ 0]) simp
  next
    case False
    with Cons.prems have "song_index songID xs (Suc n) = Some m" by simp
    from Cons.IH [OF this] obtain j where j: "m = Suc n + j" "j < length xs"
      "SongID (xs ! j) = songID" "\<forall>k<j. SongID (xs ! k) \<noteq> songID" by blast
    have "\<forall>k<Suc j. SongID ((x # xs) ! k) \<noteq> songID"
      using False j(4) by (simp add: All_less_Suc2)
    with j show ?thesis by (intro exI [of _ "Suc j"]) simp
  qed
qed

lemma playlist_index_None:
  "playlist_index playlistID ps n = None \<longleftrightarrow> (\<forall>p\<in>set ps. PlaylistID p \<noteq> playlistID)"
  by (induction ps arbitrary: n) simp_all

lemma playlist_index_Some:
  "playlist_index playlistID ps n = Some m \<Longrightarrow>
   \<exists>i. m = n + i \<and> i < length ps \<and> PlaylistID (ps ! i) = playlistID \<and>
       (\<forall>k<i. PlaylistID (ps ! k) \<noteq> playlistID)"
proof (induction ps arbitrary: n)
  case Nil
  then show ?case by simp
next
  case (Cons p ps)
  show ?case
  proof (cases "PlaylistID p = playlistID")
    case True
    with Cons.prems have "m = n" by simp
    with True show ?thesis by (intro exI [of _ 0]) simp
  next
    case False
    with Cons.prems have "playlist_index playlistID ps (Suc n) = Some m" by simp
    from Cons.IH [OF this] obtain i where i: "m = Suc n + i" "i < length ps"
      "PlaylistID (ps ! i) = playlistID" "\<forall>k<i. PlaylistID (ps ! k) \<noteq> playlistID" by blast
    have "\<forall>k<Suc i. PlaylistID ((p # ps) ! k) \<noteq> playlistID"
      using False i(4) by (simp add: All_less_Suc2)
    with i show ?thesis by (intro exI [of _ "Suc i"]) simp
  qed
qed

lemma delete_song_scan_sole:
  "i < length ps \<Longrightarrow> PlaylistID (ps ! i) = playlistID \<Longrightarrow> length (Songs (ps ! i)) = 1 \<Longrightarrow>
   \<forall>k<i. PlaylistID (ps ! k) = playlistID \<longrightarrow> (\<forall>x\<in>set (Songs (ps ! k)). SongID x \<noteq> songID) \<Longrightarrow>
   delete_song_scan playlistID songID ps n = SoleSong"
proof (induction ps arbitrary: i n)
  case Nil
  then show ?case by simp
next
  case (Cons p ps)
  show ?case
  proof (cases i)
    case 0
    with Cons.prems show ?thesis by simp
  next
    case (Suc i')
    from Cons.prems(4) Suc
    have here: "PlaylistID p = playlistID \<longrightarrow> (\<forall>x\<in>set (Songs p). SongID x \<noteq> songID)"
      and earlier: "\<forall>k<i'. PlaylistID (ps ! k) = playlistID \<longrightarrow>
                     (\<forall>x\<in>set (Songs (ps ! k)). SongID x \<noteq> songID)"
      by (simp_all add: All_less_Suc2)
    have rest: "delete_song_scan playlistID songID ps (Suc n) = SoleSong"
      using Cons.prems(1-3) Suc earlier by (intro Cons.IH [of i']) simp_all
    from here have "PlaylistID p = playlistID \<longrightarrow> song_index songID (Songs p) 0 = None"
      by (simp add: song_index_None)
    with rest show ?thesis by simp
  qed
qed

lemma delete_song_scan_Hit:
  "delete_song_scan playlistID songID ps n = Hit a j \<Longrightarrow>
   \<exists>i. a = n + i \<and> i < length ps \<and> PlaylistID (ps ! i) = playlistID \<and>
       length (Songs (ps ! i)) \<noteq> 1 \<and> song_index songID (Songs (ps ! i)) 0 = Some j \<and>
       (\<forall>k<i. PlaylistID (ps ! k) = playlistID \<longrightarrow>
          (\<forall>x\<in>set (Songs (ps ! k)). SongID x \<noteq> songID))"
proof (induction ps arbitrary: n)
  case Nil
  then show ?case by simp
next
  case (Cons p ps)
  show ?case
  proof (cases "PlaylistID p = playlistID \<and> length (Songs p) \<noteq> 1 \<and>
                song_index songID (Songs p) 0 \<noteq> None")
    case True
    with Cons.prems have "a = n" "song_index songID (Songs p) 0 = Some j" by auto
    with True show ?thesis by (intro exI [of _ 0]) simp
  next
    case False
    with Cons.prems have rest: "delete_song_scan playlistID songID ps (Suc n) = Hit a j"
      and here: "PlaylistID p = playlistID \<longrightarrow> song_index songID (Songs p) 0 = None"
      by (auto split: if_splits option.splits)
    from Cons.IH [OF rest] obtain i where i: "a = Suc n + i" "i < length ps"
      "PlaylistID (ps ! i) = playlistID" "length (Songs (ps ! i)) \<noteq> 1"
      "song_index songID (Songs (ps ! i)) 0 = Some j"
      "\<forall>k<i. PlaylistID (ps ! k) = playlistID \<longrightarrow>
          (\<forall>x\<in>set (Songs (ps ! k)). SongID x \<noteq> songID)" by blast
    have "\<forall>k<Suc i. PlaylistID ((p # ps) ! k) = playlistID \<longrightarrow>
          (\<forall>x\<in>set (Songs ((p # ps) ! k)). SongID x \<noteq> songID)"
      using here i(6) by (simp add: All_less_Suc2 song_index_None)
    with i show ?thesis by (intro exI [of _ "Suc i"]) simp
  qed
qed

lemma song_scan_find: "song_scan songID songs = find (\<lambda>song. SongID song = songID) songs"
  by (induction songs) simp_all

lemma find_append_cases:
  "find P (xs @ ys) = (case find P xs of Some x \<Rightarrow> Some x | None \<Rightarrow> find P ys)"
  by (induction xs) simp_all

lemma playlists_scan_find:
  "playlists_scan songID ps = find (\<lambda>song. SongID song = songID) (concat (map Songs ps))"
  by (induction ps) (simp_all add: song_scan_find find_append_cases split: option.splits)

subsection \<open>The handlers\<close>

lemma deleteSongFromPlaylist_success:
  "deleteSongFromPlaylist s secretCode songID playlistID = (Inr r, s') \<Longrightarrow>
   \<exists>user i j. users s secretCode = Some user \<and>
     delete_song_scan playlistID songID (Playlists user) 0 = Hit i j \<and>
     r = (Playlists user ! i)\<lparr>Songs := delete_at_array (Songs (Playlists user ! i)) j\<rparr> \<and>
     s' = s\<lparr>users := (users s)(secretCode \<mapsto>
            user\<lparr>Playlists := (Playlists user)
              [i := (Playlists user ! i)\<lparr>Songs := delete_at (Songs (Playlists user ! i)) j\<rparr>]\<rparr>)\<rparr>"
  by (auto simp: deleteSongFromPlaylist_def Let_def split: option.splits delete_scan.splits)

lemma loginHandler_failure: "fst (loginHandler s c) = Inl e \<Longrightarrow> snd (loginHandler s c) = s"
  by (simp add: loginHandler_def split: option.splits)

lemma viewProfile_failure: "fst (viewProfile s c) = Inl e \<Longrightarrow> snd (viewProfile s c) = s"
  by (simp add: viewProfile_def split: option.splits)

lemma registerHandler_failure: "fst (registerHandler s b) = Inl e \<Longrightarrow> snd (registerHandler s b) = s"
  by (simp add: registerHandler_def Let_def split: option.splits prod.splits)

lemma createPlaylist_failure: "fst (createPlaylist s c n) = Inl e \<Longrightarrow> snd (createPlaylist s c n) = s"
  by (simp add: createPlaylist_def Let_def split: option.splits prod.splits)

lemma deleteSongFromPlaylist_failure:
  "fst (deleteSongFromPlaylist s c x p) = Inl e \<Longrightarrow> snd (deleteSongFromPlaylist s c x p) = s"
  by (simp add: deleteSongFromPlaylist_def Let_def split: option.splits delete_scan.splits)

lemma addSongToPlaylist_failure:
  "fst (addSongToPlaylist s c p b) = Inl e \<Longrightarrow> snd (addSongToPlaylist s c p b) = s"
  by (simp add: addSongToPlaylist_def Let_def split: option.splits prod.splits)

lemma deletePlaylist_failure:
  "fst (deletePlaylist s c p) = Inl e \<Longrightarrow> snd (deletePlaylist s c p) = s"
  by (simp add: deletePlaylist_def Let_def split: option.splits)

lemma getSongDetail_failure:
  "fst (getSongDetail s c x) = Inl e \<Longrightarrow> snd (getSongDetail s c x) = s"
  by (simp add: getSongDetail_def split: option.splits)

lemma map_sum_id_Inl: "map_sum id f x = Inl e \<longleftrightarrow> x = Inl e"
  by (cases x) simp_all

lemma deleteSong_returned_is_longer:
  assumes "deleteSongFromPlaylist s secretCode songID playlistID = (Inr r, s')"
  shows "\<exists>user' i. users s' secretCode = Some user' \<and> i < length (Playlists user') \<and>
           PlaylistID (Playlists user' ! i) = PlaylistID r \<and>
           length (Songs r) = length (Songs (Playlists user' ! i)) + 1"
proof -
  from deleteSongFromPlaylist_success [OF assms]
  obtain user i j where u: "users s secretCode = Some user"
    and scan: "delete_song_scan playlistID songID (Playlists user) 0 = Hit i j"
    and r: "r = (Playlists user ! i)\<lparr>Songs := delete_at_array (Songs (Playlists user ! i)) j\<rparr>"
    and s': "s' = s\<lparr>users := (users s)(secretCode \<mapsto>
            user\<lparr>Playlists := (Playlists user)
              [i := (Playlists user ! i)\<lparr>Songs := delete_at (Songs (Playlists user ! i)) j\<rparr>]\<rparr>)\<rparr>"
    by blast
  from delete_song_scan_Hit [OF scan]
  have i: "i < length (Playlists user)"
    and idx: "song_index songID (Songs (Playlists user ! i)) 0 = Some j" by auto
  from song_index_Some [OF idx] have j: "j < length (Songs (Playlists user ! i))" by auto
  with i r s' show ?thesis
    by (auto simp: length_delete_at length_delete_at_array)
qed

lemma serve_playlists: "playlists (snd (serve s req)) = playlists s"
  by (cases req)
    (simp_all add: loginHandler_def registerHandler_def viewProfile_def createPlaylist_def
      deleteSongFromPlaylist_def addSongToPlaylist_def deletePlaylist_def getSongDetail_def
      Let_def split: option.splits prod.splits delete_scan.splits)

lemma serve_ignores_playlists:
  "serve (s\<lparr>playlists := m\<rparr>) req = (fst (serve s req), (snd (serve s req))\<lparr>playlists := m\<rparr>)"
  by (cases req)
    (simp_all add: loginHandler_def registerHandler_def viewProfile_def createPlaylist_def
      deleteSongFromPlaylist_def addSongToPlaylist_def deletePlaylist_def getSongDetail_def
      Let_def split: option.splits prod.splits delete_scan.splits)

lemma reachable_playlists_empty: "reachable s \<Longrightarrow> playlists s = Map.empty"
  by (induction rule: reachable.induct) (simp_all add: initial_def serve_playlists)

subsection \<open>The concrete runs\<close>

lemma reachable_run: "reachable s \<Longrightarrow> reachable (run s reqs)"
  by (induction reqs arbitrary: s) (simp_all add: reachable_serve)

lemma reachable_registered: "reachable (registered ps)"
  unfolding registered_def by (rule reachable_run) (rule reachable_initial)

lemma users_registered:
  "users (registered ps) = [''1'' \<mapsto> \<lparr>UserID = ''0'', SecretCode = ''1'', UserName = ''ann'',
       Email = ''ann@example.org'',
       Playlists = ps @ [\<lparr>PlaylistID = ''2'', PlaylistName = ''Default'',
                          Songs = [defaultSong ''3'']\<rparr>]\<rparr>]"
  by (simp add: registered_def initial_def counting_def ann_def registerHandler_def
      generateID_def decimal.simps Let_def)

lemma randSrc_registered: "randSrc (registered ps) = (\<lambda>n. of_nat (n + 4))"
  by (simp add: registered_def initial_def counting_def registerHandler_def generateID_def
      Let_def fun_eq_iff)

lemma users_after_add:
  "users after_add = [''1'' \<mapsto> \<lparr>UserID = ''0'', SecretCode = ''1'', UserName = ''ann'',
       Email = ''ann@example.org'',
       Playlists = [\<lparr>PlaylistID = ''2'', PlaylistName = ''Default'',
                          Songs = [defaultSong ''3'', tune ''4'']\<rparr>]\<rparr>]"
  by (simp add: after_add_def addSongToPlaylist_def users_registered randSrc_registered
      generateID_def decimal.simps Let_def tune_def)

lemma users_after_add_eq:
  "users after_add ''1'' = Some \<lparr>UserID = ''0'', SecretCode = ''1'', UserName = ''ann'',
       Email = ''ann@example.org'',
       Playlists = [\<lparr>PlaylistID = ''2'', PlaylistName = ''Default'',
                          Songs = [defaultSong ''3'', tune ''4'']\<rparr>]\<rparr>"
  by (simp add: users_after_add)

lemma reachable_after_add: "reachable after_add"
  unfolding after_add_def by (rule reachable_run) (rule reachable_registered)

subsection \<open>Playlists stay non-empty unless a registration brings an empty one\<close>

lemma nonempty_playlists_store:
  assumes "nonempty_playlists s"
    and "\<forall>p\<in>set (Playlists user). Songs p \<noteq> []"
    and "users s' = (users s)(secretCode \<mapsto> user)"
  shows "nonempty_playlists s'"
  using assms by (auto simp: nonempty_playlists_def split: if_splits)

lemma nonempty_playlists_user:
  "nonempty_playlists s \<Longrightarrow> users s secretCode = Some user \<Longrightarrow>
   \<forall>p\<in>set (Playlists user). Songs p \<noteq> []"
  by (auto simp: nonempty_playlists_def)

lemma in_set_update_cases: "q \<in> set (ps[i := p]) \<Longrightarrow> q = p \<or> q \<in> set ps"
  using set_update_subset_insert [of ps i p] by auto

lemma in_set_delete_at: "i < length ps \<Longrightarrow> q \<in> set (delete_at ps i) \<Longrightarrow> q \<in> set ps"
  by (auto simp: delete_at_eq dest: in_set_takeD in_set_dropD)

lemma nonempty_registerHandler:
  assumes "nonempty_playlists s"
    and "\<forall>p\<in>set (Playlists decoded). Songs p \<noteq> []"
  shows "nonempty_playlists (snd (registerHandler s (Some decoded)))"
proof (rule nonempty_playlists_store [OF assms(1)])
  let ?user = "decoded\<lparr>UserID := draw (randSrc s) 0, SecretCode := draw (randSrc s) 1,
      Playlists := Playlists decoded @
        [\<lparr>PlaylistID = draw (randSrc s) 2, PlaylistName = ''Default'',
          Songs = [defaultSong (draw (randSrc s) 3)]\<rparr>]\<rparr>"
  show "\<forall>p\<in>set (Playlists ?user). Songs p \<noteq> []"
    using assms(2) by simp
  show "users (snd (registerHandler s (Some decoded))) = (users s)(draw (randSrc s) 1 \<mapsto> ?user)"
    by (simp add: registerHandler_def generateID_draw draw_advance advance_advance Let_def
        eval_nat_numeral)
qed

lemma nonempty_createPlaylist:
  assumes "nonempty_playlists s"
  shows "nonempty_playlists (snd (createPlaylist s secretCode playlistName))"
proof (cases "users s secretCode")
  case None
  with assms show ?thesis by (simp add: createPlaylist_def)
next
  case (Some user)
  let ?user = "user\<lparr>Playlists := Playlists user @
        [\<lparr>PlaylistID = draw (randSrc s) 0, PlaylistName = playlistName,
          Songs = [defaultSong (draw (randSrc s) 1)]\<rparr>]\<rparr>"
  show ?thesis
  proof (rule nonempty_playlists_store [OF assms])
    show "\<forall>p\<in>set (Playlists ?user). Songs p \<noteq> []"
      using nonempty_playlists_user [OF assms Some] by simp
    show "users (snd (createPlaylist s secretCode playlistName)) =
            (users s)(secretCode \<mapsto> ?user)"
      using Some
      by (simp add: createPlaylist_def generateID_draw draw_advance Let_def)
  qed
qed

lemma nonempty_addSongToPlaylist:
  assumes "nonempty_playlists s"
  shows "nonempty_playlists (snd (addSongToPlaylist s secretCode playlistID body))"
proof (cases "fst (addSongToPlaylist s secretCode playlistID body)")
  case (Inl e)
  then have "snd (addSongToPlaylist s secretCode playlistID body) = s"
    by (rule addSongToPlaylist_failure)
  with assms show ?thesis by simp
next
  case (Inr r)
  then obtain decoded user i where b: "body = Some decoded"
    and u: "users s secretCode = Some user"
    and i: "playlist_index playlistID (Playlists user) 0 = Some i"
    by (auto simp: addSongToPlaylist_def split: option.splits)
  let ?new = "decoded\<lparr>SongID := draw (randSrc s) 0\<rparr>"
  let ?user = "user\<lparr>Playlists := (Playlists user)
                 [i := (Playlists user ! i)\<lparr>Songs := Songs (Playlists user ! i) @ [?new]\<rparr>]\<rparr>"
  show ?thesis
  proof (rule nonempty_playlists_store [OF assms])
    show "\<forall>p\<in>set (Playlists ?user). Songs p \<noteq> []"
      using nonempty_playlists_user [OF assms u] by (auto dest!: in_set_update_cases)
    show "users (snd (addSongToPlaylist s secretCode playlistID body)) =
            (users s)(secretCode \<mapsto> ?user)"
      using b u i by (simp add: addSongToPlaylist_def generateID_draw Let_def)
  qed
qed

lemma nonempty_deleteSongFromPlaylist:
  assumes "nonempty_playlists s"
  shows "nonempty_playlists (snd (deleteSongFromPlaylist s secretCode songID playlistID))"
proof (cases "fst (deleteSongFromPlaylist s secretCode songID playlistID)")
  case (Inl e)
  then have "snd (deleteSongFromPlaylist s secretCode songID playlistID) = s"
    by (rule deleteSongFromPlaylist_failure)
  with assms show ?thesis by simp
next
  case (Inr r)
  then have run: "deleteSongFromPlaylist s secretCode songID playlistID =
      (Inr r, snd (deleteSongFromPlaylist s secretCode songID playlistID))"
    by (simp add: prod_eq_iff)
  from deleteSongFromPlaylist_success [OF run]
  obtain user i j where u: "users s secretCode = Some user"
    and scan: "delete_song_scan playlistID songID (Playlists user) 0 = Hit i j"
    and s': "snd (deleteSongFromPlaylist s secretCode songID playlistID) =
       s\<lparr>users := (users s)(secretCode \<mapsto> user\<lparr>Playlists := (Playlists user)
           [i := (Playlists user ! i)\<lparr>Songs := delete_at (Songs (Playlists user ! i)) j\<rparr>]\<rparr>)\<rparr>"
    by blast
  from delete_song_scan_Hit [OF scan]
  have len: "length (Songs (Playlists user ! i)) \<noteq> 1"
    and idx: "song_index songID (Songs (Playlists user ! i)) 0 = Some j" by auto
  from song_index_Some [OF idx] have j: "j < length (Songs (Playlists user ! i))" by auto
  with len have "length (delete_at (Songs (Playlists user ! i)) j) \<noteq> 0"
    by (simp add: length_delete_at)
  then have new: "delete_at (Songs (Playlists user ! i)) j \<noteq> []" by simp
  let ?user = "user\<lparr>Playlists := (Playlists user)
           [i := (Playlists user ! i)\<lparr>Songs := delete_at (Songs (Playlists user ! i)) j\<rparr>]\<rparr>"
  show ?thesis
  proof (rule nonempty_playlists_store [OF assms])
    show "\<forall>p\<in>set (Playlists ?user). Songs p \<noteq> []"
      using nonempty_playlists_user [OF assms u] new by (auto dest!: in_set_update_cases)
    show "users (snd (deleteSongFromPlaylist s secretCode songID playlistID)) =
            (users s)(secretCode \<mapsto> ?user)"
      using s' by simp
  qed
qed

lemma nonempty_deletePlaylist:
  assumes "nonempty_playlists s"
  shows "nonempty_playlists (snd (deletePlaylist s secretCode playlistID))"
proof (cases "fst (deletePlaylist s secretCode playlistID)")
  case (Inl e)
  then have "snd (deletePlaylist s secretCode playlistID) = s"
    by (rule deletePlaylist_failure)
  with assms show ?thesis by simp
next
  case (Inr r)
  then obtain user i where u: "users s secretCode = Some user"
    and i: "playlist_index playlistID (Playlists user) 0 = Some i"
    by (auto simp: deletePlaylist_def split: option.splits)
  from playlist_index_Some [OF i] have less: "i < length (Playlists user)" by auto
  let ?user = "user\<lparr>Playlists := delete_at (Playlists user) i\<rparr>"
  show ?thesis
  proof (rule nonempty_playlists_store [OF assms])
    show "\<forall>p\<in>set (Playlists ?user). Songs p \<noteq> []"
      using nonempty_playlists_user [OF assms u] less by (auto dest: in_set_delete_at)
    show "users (snd (deletePlaylist s secretCode playlistID)) = (users s)(secretCode \<mapsto> ?user)"
      using u i by (simp add: deletePlaylist_def Let_def)
  qed
qed

lemma nonempty_serve:
  assumes inv: "nonempty_playlists s"
    and body: "\<And>decoded. req = Register (Some decoded) \<Longrightarrow>
                 \<forall>p\<in>set (Playlists decoded). Songs p \<noteq> []"
  shows "nonempty_playlists (snd (serve s req))"
proof (cases req)
  case (Login c)
  with inv show ?thesis by (simp add: loginHandler_def split: option.splits)
next
  case (Register b)
  show ?thesis
  proof (cases b)
    case None
    with Register inv show ?thesis by (simp add: registerHandler_def)
  next
    case (Some decoded)
    with body Register have "\<forall>p\<in>set (Playlists decoded). Songs p \<noteq> []" by simp
    with inv Register Some show ?thesis by (simp add: nonempty_registerHandler)
  qed
next
  case (ViewProfile c)
  with inv show ?thesis by (simp add: viewProfile_def split: option.splits)
next
  case (CreatePlaylist c n)
  with inv show ?thesis by (simp add: nonempty_createPlaylist)
next
  case (DeleteSongFromPlaylist c x p)
  with inv show ?thesis by (simp add: nonempty_deleteSongFromPlaylist)
next
  case (AddSongToPlaylist c p b)
  with inv show ?thesis by (simp add: nonempty_addSongToPlaylist)
next
  case (DeletePlaylist c p)
  with inv show ?thesis by (simp add: nonempty_deletePlaylist)
next
  case (GetSongDetail c x)
  with inv show ?thesis by (simp add: getSongDetail_def split: option.splits)
qed

lemma nonempty_initial: "nonempty_playlists (initial src)"
  by (simp add: nonempty_playlists_def initial_def)

lemma nonempty_run:
  assumes "nonempty_playlists s"
    and "\<forall>decoded. Register (Some decoded) \<in> set reqs \<longrightarrow>
           (\<forall>p\<in>set (Playlists decoded). Songs p \<noteq> [])"
  shows "nonempty_playlists (run s reqs)"
  using assms
proof (induction reqs arbitrary: s)
  case Nil
  then show ?case by simp
next
  case (Cons req reqs)
  have "nonempty_playlists (snd (serve s req))"
    using Cons.prems by (intro nonempty_serve) simp_all
  moreover have "\<forall>decoded. Register (Some decoded) \<in> set reqs \<longrightarrow>
           (\<forall>p\<in>set (Playlists decoded). Songs p \<noteq> [])"
    using Cons.prems(2) by simp
  ultimately show ?case using Cons.IH by simp
qed

section \<open>The claims\<close>

text \<open>
  Claim C1, the playlist non-emptiness invariant, does not hold of the code.
  \<open>registerHandler\<close> keeps the playlists of the decoded body and only appends the
  default playlist, so one registration whose body carries a playlist without songs
  leaves that playlist in the store: the state below is reachable from the initial
  state in one request and the first playlist of its user has no song.  (Every other
  request keeps playlists non-empty, see \<open>nonempty_run\<close>.)
\<close>

theorem register_keeps_empty_playlist:
  "reachable (registered [\<lparr>PlaylistID = ''p'', PlaylistName = ''mine'', Songs = []\<rparr>]) \<and>
   users (registered [\<lparr>PlaylistID = ''p'', PlaylistName = ''mine'', Songs = []\<rparr>]) ''1'' =
     Some \<lparr>UserID = ''0'', SecretCode = ''1'', UserName = ''ann'', Email = ''ann@example.org'',
       Playlists =
         [\<lparr>PlaylistID = ''p'', PlaylistName = ''mine'', Songs = []\<rparr>,
          \<lparr>PlaylistID = ''2'', PlaylistName = ''Default'', Songs = [defaultSong ''3'']\<rparr>]\<rparr>"
  by (simp add: reachable_registered users_registered)

text \<open>
  Claim C2, that a successful \<open>deleteSongFromPlaylist\<close> returns the playlist as it
  is stored after the removal, does not hold of the code.  After a registration and
  one added song the default playlist holds the default song 3 and the added song 4.
  Removing song 3 stores the playlist with the single song 4, but the response is
  the loop's copy of the playlist, whose slice still has length two over the shifted
  array: it lists song 4 twice.  (The response is one song longer than the stored
  playlist on every success, see \<open>deleteSong_returned_is_longer\<close>.)
\<close>

theorem deleteSong_returns_stale_playlist:
  "reachable after_add \<and>
   users after_add ''1'' =
     Some \<lparr>UserID = ''0'', SecretCode = ''1'', UserName = ''ann'', Email = ''ann@example.org'',
       Playlists = [\<lparr>PlaylistID = ''2'', PlaylistName = ''Default'',
                     Songs = [defaultSong ''3'', tune ''4'']\<rparr>]\<rparr> \<and>
   fst (deleteSongFromPlaylist after_add ''1'' ''3'' ''2'') =
     Inr \<lparr>PlaylistID = ''2'', PlaylistName = ''Default'', Songs = [tune ''4'', tune ''4'']\<rparr> \<and>
   users (snd (deleteSongFromPlaylist after_add ''1'' ''3'' ''2'')) ''1'' =
     Some \<lparr>UserID = ''0'', SecretCode = ''1'', UserName = ''ann'', Email = ''ann@example.org'',
       Playlists = [\<lparr>PlaylistID = ''2'', PlaylistName = ''Default'', Songs = [tune ''4'']\<rparr>]\<rparr>"
  by (simp add: reachable_after_add deleteSongFromPlaylist_def users_after_add defaultSong_def
      tune_def Let_def delete_at_def delete_at_array_def copy_cells_def)

text \<open>
  Claim C3, as amended: when a playlist of the user has the given identifier and
  exactly one song, and no playlist stored before it under the same identifier holds
  a song with the given song identifier, \<open>deleteSongFromPlaylist\<close> fails with
  \<open>InvariantViolation\<close> and returns the state it was given, so the store, and with it
  that playlist's songs, is unchanged.
\<close>

theorem deleteSong_sole_song_rejected:
  assumes "users s secretCode = Some user"
    and "i < length (Playlists user)"
    and "PlaylistID (Playlists user ! i) = playlistID"
    and "length (Songs (Playlists user ! i)) = 1"
    and "\<forall>k<i. PlaylistID (Playlists user ! k) = playlistID \<longrightarrow>
           (\<forall>x\<in>set (Songs (Playlists user ! k)). SongID x \<noteq> songID)"
  shows "deleteSongFromPlaylist s secretCode songID playlistID = (Inl InvariantViolation, s)"
proof -
  have "delete_song_scan playlistID songID (Playlists user) 0 = SoleSong"
    using assms(2-5) by (rule delete_song_scan_sole)
  with assms(1) show ?thesis
    by (simp add: deleteSongFromPlaylist_def sendError_simps)
qed

text \<open>Witness for C3: the default playlist of a fresh registration and its only song.\<close>

theorem deleteSong_sole_song_rejected_witness:
  "users (registered []) ''1'' =
     Some \<lparr>UserID = ''0'', SecretCode = ''1'', UserName = ''ann'', Email = ''ann@example.org'',
           Playlists = [\<lparr>PlaylistID = ''2'', PlaylistName = ''Default'',
                         Songs = [defaultSong ''3'']\<rparr>]\<rparr> \<and>
   deleteSongFromPlaylist (registered []) ''1'' ''3'' ''2'' =
     (Inl InvariantViolation, registered [])"
  using deleteSong_sole_song_rejected [of "registered []" "''1''"
      "\<lparr>UserID = ''0'', SecretCode = ''1'', UserName = ''ann'', Email = ''ann@example.org'',
        Playlists = [\<lparr>PlaylistID = ''2'', PlaylistName = ''Default'',
                      Songs = [defaultSong ''3'']\<rparr>]\<rparr>" 0 "''2''" "''3''"]
  by (simp add: users_registered)

text \<open>
  Counterexample to C3 as stated: the user owns two playlists with the identifier
  \<open>p\<close>; the second holds exactly one song, yet removing song \<open>a\<close> from \<open>p\<close> does not
  fail: the scan stops at the first playlist, which holds \<open>a\<close> and one more song.
\<close>

theorem sole_song_counterexample:
  "reachable (twins [tune ''a'', tune ''b''] [tune ''c'']) \<and>
   users (twins [tune ''a'', tune ''b''] [tune ''c'']) ''1'' =
     Some \<lparr>UserID = ''0'', SecretCode = ''1'', UserName = ''ann'', Email = ''ann@example.org'',
       Playlists =
         [\<lparr>PlaylistID = ''p'', PlaylistName = ''one'', Songs = [tune ''a'', tune ''b'']\<rparr>,
          \<lparr>PlaylistID = ''p'', PlaylistName = ''two'', Songs = [tune ''c'']\<rparr>,
          \<lparr>PlaylistID = ''2'', PlaylistName = ''Default'', Songs = [defaultSong ''3'']\<rparr>]\<rparr> \<and>
   fst (deleteSongFromPlaylist (twins [tune ''a'', tune ''b''] [tune ''c'']) ''1'' ''a'' ''p'') =
     Inr \<lparr>PlaylistID = ''p'', PlaylistName = ''one'', Songs = [tune ''b'', tune ''b'']\<rparr> \<and>
   fst (deleteSongFromPlaylist (twins [tune ''a'', tune ''b''] [tune ''c'']) ''1'' ''a'' ''p'') \<noteq>
     Inl InvariantViolation"
  by (simp add: twins_def reachable_registered users_registered deleteSongFromPlaylist_def
      tune_def Let_def delete_at_def delete_at_array_def copy_cells_def)

text \<open>
  Claim C4, as amended: let a playlist of the user have the given identifier and at
  least two songs, one of them with the given song identifier, and let no playlist
  stored before it under the same identifier hold such a song.  After a successful
  \<open>deleteSongFromPlaylist\<close> the stored playlist at that position has lost exactly the
  first song with that identifier: its songs are the old ones without that position,
  in the old order, one fewer; all other playlists of the user and all other users
  are as before.
\<close>

theorem deleteSong_removes_exactly_one:
  assumes "users s secretCode = Some user"
    and "i < length (Playlists user)"
    and "PlaylistID (Playlists user ! i) = playlistID"
    and "2 \<le> length (Songs (Playlists user ! i))"
    and "\<exists>x\<in>set (Songs (Playlists user ! i)). SongID x = songID"
    and "\<forall>k<i. PlaylistID (Playlists user ! k) = playlistID \<longrightarrow>
           (\<forall>x\<in>set (Songs (Playlists user ! k)). SongID x \<noteq> songID)"
    and "deleteSongFromPlaylist s secretCode songID playlistID = (Inr r, s')"
  shows "\<exists>user' j. users s' secretCode = Some user' \<and>
     j < length (Songs (Playlists user ! i)) \<and>
     SongID (Songs (Playlists user ! i) ! j) = songID \<and>
     (\<forall>k<j. SongID (Songs (Playlists user ! i) ! k) \<noteq> songID) \<and>
     Songs (Playlists user' ! i) =
       take j (Songs (Playlists user ! i)) @ drop (Suc j) (Songs (Playlists user ! i)) \<and>
     length (Songs (Playlists user' ! i)) + 1 = length (Songs (Playlists user ! i)) \<and>
     length (Playlists user') = length (Playlists user) \<and>
     (\<forall>k<length (Playlists user). k \<noteq> i \<longrightarrow> Playlists user' ! k = Playlists user ! k) \<and>
     (\<forall>c. c \<noteq> secretCode \<longrightarrow> users s' c = users s c)"
proof -
  let ?ps = "Playlists user"
  from deleteSongFromPlaylist_success [OF assms(7)] assms(1)
  obtain a j where scan: "delete_song_scan playlistID songID ?ps 0 = Hit a j"
    and s': "s' = s\<lparr>users := (users s)(secretCode \<mapsto>
            user\<lparr>Playlists := ?ps [a := (?ps ! a)\<lparr>Songs := delete_at (Songs (?ps ! a)) j\<rparr>]\<rparr>)\<rparr>"
    by auto
  from delete_song_scan_Hit [OF scan]
  have a: "a < length ?ps" "PlaylistID (?ps ! a) = playlistID"
    "song_index songID (Songs (?ps ! a)) 0 = Some j"
    "\<forall>k<a. PlaylistID (?ps ! k) = playlistID \<longrightarrow>
        (\<forall>x\<in>set (Songs (?ps ! k)). SongID x \<noteq> songID)"
    by auto
  from song_index_Some [OF a(3)]
  have j: "j < length (Songs (?ps ! a))" "SongID (Songs (?ps ! a) ! j) = songID"
    "\<forall>k<j. SongID (Songs (?ps ! a) ! k) \<noteq> songID"
    by auto
  have "\<not> a < i"
  proof
    assume "a < i"
    with assms(6) a(2) have "\<forall>x\<in>set (Songs (?ps ! a)). SongID x \<noteq> songID" by blast
    with j(1,2) show False by (metis nth_mem)
  qed
  moreover have "\<not> i < a"
  proof
    assume "i < a"
    with a(4) assms(3) have "\<forall>x\<in>set (Songs (?ps ! i)). SongID x \<noteq> songID" by blast
    with assms(5) show False by blast
  qed
  ultimately have ai: "a = i" by simp
  let ?user' = "user\<lparr>Playlists := ?ps [i := (?ps ! i)\<lparr>Songs := delete_at (Songs (?ps ! i)) j\<rparr>]\<rparr>"
  have "users s' secretCode = Some ?user'"
    using s' ai by simp
  moreover have "Songs (Playlists ?user' ! i) =
       take j (Songs (?ps ! i)) @ drop (Suc j) (Songs (?ps ! i))"
    using assms(2) j(1) ai by (simp add: delete_at_eq)
  moreover have "length (Songs (Playlists ?user' ! i)) + 1 = length (Songs (?ps ! i))"
    using assms(2) j(1) ai by (simp add: length_delete_at)
  moreover have "length (Playlists ?user') = length ?ps" by simp
  moreover have "\<forall>k<length ?ps. k \<noteq> i \<longrightarrow> Playlists ?user' ! k = ?ps ! k" by simp
  moreover have "\<forall>c. c \<noteq> secretCode \<longrightarrow> users s' c = users s c"
    using s' by simp
  ultimately show ?thesis using j ai by blast
qed

text \<open>Witness for C4: removing the default song after a song has been added.\<close>

theorem deleteSong_removes_exactly_one_witness:
  "users after_add ''1'' =
     Some \<lparr>UserID = ''0'', SecretCode = ''1'', UserName = ''ann'', Email = ''ann@example.org'',
       Playlists = [\<lparr>PlaylistID = ''2'', PlaylistName = ''Default'',
                     Songs = [defaultSong ''3'', tune ''4'']\<rparr>]\<rparr> \<and>
   Songs (Playlists (the (users (snd (deleteSongFromPlaylist after_add ''1'' ''3'' ''2'')) ''1'')) ! 0) =
     [tune ''4'']"
proof -
  let ?user = "\<lparr>UserID = ''0'', SecretCode = ''1'', UserName = ''ann'',
       Email = ''ann@example.org'',
       Playlists = [\<lparr>PlaylistID = ''2'', PlaylistName = ''Default'',
                          Songs = [defaultSong ''3'', tune ''4'']\<rparr>]\<rparr>"
  obtain r s' where run: "deleteSongFromPlaylist after_add ''1'' ''3'' ''2'' = (Inr r, s')"
    by (simp add: deleteSongFromPlaylist_def users_after_add defaultSong_def Let_def)
  have "\<exists>x\<in>set (Songs (Playlists ?user ! 0)). SongID x = ''3''"
    by (simp add: defaultSong_def)
  from deleteSong_removes_exactly_one [of after_add "''1''" ?user 0 "''2''" "''3''" r s',
      OF users_after_add_eq _ _ _ this _ run]
  obtain user' j where u: "users s' ''1'' = Some user'"
    and j: "j < length [defaultSong ''3'', tune ''4'']"
      "\<forall>k<j. SongID ([defaultSong ''3'', tune ''4''] ! k) \<noteq> ''3''"
    and songs: "Songs (Playlists user' ! 0) =
       take j [defaultSong ''3'', tune ''4''] @ drop (Suc j) [defaultSong ''3'', tune ''4'']"
    by auto
  have "j = 0"
  proof (rule ccontr)
    assume "j \<noteq> 0"
    with j(2) have "SongID ([defaultSong ''3'', tune ''4''] ! 0) \<noteq> ''3''" by blast
    then show False by (simp add: defaultSong_def)
  qed
  with songs have "Songs (Playlists user' ! 0) = [tune ''4'']" by simp
  with u run show ?thesis by (simp add: users_after_add)
qed

text \<open>
  Counterexample to C4 as stated: two playlists of one user share the identifier
  \<open>p\<close> and both hold song \<open>a\<close> and one more song.  Removing \<open>a\<close> from \<open>p\<close> succeeds,
  and the second playlist still has both its songs.
\<close>

theorem removed_song_counterexample:
  "reachable (twins [tune ''a'', tune ''b''] [tune ''a'', tune ''c'']) \<and>
   users (twins [tune ''a'', tune ''b''] [tune ''a'', tune ''c'']) ''1'' =
     Some \<lparr>UserID = ''0'', SecretCode = ''1'', UserName = ''ann'', Email = ''ann@example.org'',
       Playlists =
         [\<lparr>PlaylistID = ''p'', PlaylistName = ''one'', Songs = [tune ''a'', tune ''b'']\<rparr>,
          \<lparr>PlaylistID = ''p'', PlaylistName = ''two'', Songs = [tune ''a'', tune ''c'']\<rparr>,
          \<lparr>PlaylistID = ''2'', PlaylistName = ''Default'', Songs = [defaultSong ''3'']\<rparr>]\<rparr> \<and>
   fst (deleteSongFromPlaylist (twins [tune ''a'', tune ''b''] [tune ''a'', tune ''c''])
        ''1'' ''a'' ''p'') =
     Inr \<lparr>PlaylistID = ''p'', PlaylistName = ''one'', Songs = [tune ''b'', tune ''b'']\<rparr> \<and>
   users (snd (deleteSongFromPlaylist (twins [tune ''a'', tune ''b''] [tune ''a'', tune ''c''])
        ''1'' ''a'' ''p'')) ''1'' =
     Some \<lparr>UserID = ''0'', SecretCode = ''1'', UserName = ''ann'', Email = ''ann@example.org'',
       Playlists =
         [\<lparr>PlaylistID = ''p'', PlaylistName = ''one'', Songs = [tune ''b'']\<rparr>,
          \<lparr>PlaylistID = ''p'', PlaylistName = ''two'', Songs = [tune ''a'', tune ''c'']\<rparr>,
          \<lparr>PlaylistID = ''2'', PlaylistName = ''Default'', Songs = [defaultSong ''3'']\<rparr>]\<rparr>"
  by (simp add: twins_def reachable_registered users_registered deleteSongFromPlaylist_def
      tune_def Let_def delete_at_def delete_at_array_def copy_cells_def)

text \<open>
  Claim C5, as amended: for every body that decodes, \<open>registerHandler\<close> succeeds; the
  user it returns has the next two identifiers of the generator as identifier and
  secret code (the two are equal exactly when the generator repeats a value), the
  name and e-mail of the body, and the body's playlists followed by a playlist named
  Default that holds exactly the default song; that user is stored under its secret
  code.  An identifier or secret code in the body changes nothing.  Nothing compares
  the two new identifiers with those in the store.
\<close>

theorem register_generated_identifiers:
  "\<exists>user s'. registerHandler s (Some decoded) = (Inr user, s') \<and>
     UserID user = draw (randSrc s) 0 \<and> SecretCode user = draw (randSrc s) 1 \<and>
     (UserID user = SecretCode user \<longleftrightarrow> randSrc s 0 = randSrc s 1) \<and>
     UserName user = UserName decoded \<and> Email user = Email decoded \<and>
     Playlists user = Playlists decoded @
       [\<lparr>PlaylistID = draw (randSrc s) 2, PlaylistName = ''Default'',
         Songs = [defaultSong (draw (randSrc s) 3)]\<rparr>] \<and>
     users s' = (users s)(SecretCode user \<mapsto> user) \<and>
     randSrc s' = advance (randSrc s) 4 \<and>
     registerHandler s (Some (decoded\<lparr>UserID := anyID, SecretCode := anyCode\<rparr>)) =
       registerHandler s (Some decoded)"
  by (simp add: registerHandler_def generateID_draw draw_advance advance_advance Let_def
      eval_nat_numeral draw_inject)

text \<open>Witness for C5: the first registration on the source that counts from 0.\<close>

theorem register_generated_identifiers_witness:
  "fst (registerHandler (initial counting) (Some ann)) =
     Inr \<lparr>UserID = ''0'', SecretCode = ''1'', UserName = ''ann'', Email = ''ann@example.org'',
           Playlists = [\<lparr>PlaylistID = ''2'', PlaylistName = ''Default'',
                         Songs = [defaultSong ''3'']\<rparr>]\<rparr>"
proof -
  from register_generated_identifiers [of "initial counting" ann]
  obtain user s' where run: "registerHandler (initial counting) (Some ann) = (Inr user, s')"
    and fields: "UserID user = draw (randSrc (initial counting)) 0"
      "SecretCode user = draw (randSrc (initial counting)) 1"
      "UserName user = UserName ann" "Email user = Email ann"
      "Playlists user = Playlists ann @
         [\<lparr>PlaylistID = draw (randSrc (initial counting)) 2, PlaylistName = ''Default'',
           Songs = [defaultSong (draw (randSrc (initial counting)) 3)]\<rparr>]"
    by blast
  have "user = \<lparr>UserID = ''0'', SecretCode = ''1'', UserName = ''ann'',
           Email = ''ann@example.org'',
           Playlists = [\<lparr>PlaylistID = ''2'', PlaylistName = ''Default'',
                         Songs = [defaultSong ''3'']\<rparr>]\<rparr>"
    using fields
    by (cases user) (simp add: initial_def counting_def ann_def draw_def decimal.simps)
  with run show ?thesis by simp
qed

text \<open>
  Counterexample to C5 as stated: the first registration carries a playlist with the
  identifier 4 and a song with the identifier 5, and draws 0 to 3.  The second
  registration is given the identifier 4 and the secret code 5, both of which the
  store already holds.
\<close>

theorem register_identifier_counterexample:
  "reachable (registered [\<lparr>PlaylistID = ''4'', PlaylistName = ''mine'', Songs = [tune ''5'']\<rparr>]) \<and>
   users (registered [\<lparr>PlaylistID = ''4'', PlaylistName = ''mine'', Songs = [tune ''5'']\<rparr>]) ''1'' =
     Some \<lparr>UserID = ''0'', SecretCode = ''1'', UserName = ''ann'', Email = ''ann@example.org'',
       Playlists =
         [\<lparr>PlaylistID = ''4'', PlaylistName = ''mine'', Songs = [tune ''5'']\<rparr>,
          \<lparr>PlaylistID = ''2'', PlaylistName = ''Default'', Songs = [defaultSong ''3'']\<rparr>]\<rparr> \<and>
   fst (registerHandler
          (registered [\<lparr>PlaylistID = ''4'', PlaylistName = ''mine'', Songs = [tune ''5'']\<rparr>])
          (Some ann)) =
     Inr \<lparr>UserID = ''4'', SecretCode = ''5'', UserName = ''ann'', Email = ''ann@example.org'',
       Playlists =
         [\<lparr>PlaylistID = ''6'', PlaylistName = ''Default'', Songs = [defaultSong ''7'']\<rparr>]\<rparr>"
  by (simp add: reachable_registered users_registered randSrc_registered registerHandler_def
      generateID_def decimal.simps ann_def Let_def)

text \<open>
  The same happens on every source: a registration body can carry the identifiers
  that the fifth and sixth call of \<open>generateID\<close> will return.
\<close>

lemma registration_repeats_for_every_source:
  "fst (registerHandler
         (snd (registerHandler (initial src)
            (Some (ann\<lparr>Playlists := [\<lparr>PlaylistID = draw src 4, PlaylistName = ''mine'',
                                      Songs = [tune (draw src 5)]\<rparr>]\<rparr>))))
         (Some decoded)) =
   Inr (decoded\<lparr>UserID := draw src 4, SecretCode := draw src 5,
          Playlists := Playlists decoded @
            [\<lparr>PlaylistID = draw src 6, PlaylistName = ''Default'',
              Songs = [defaultSong (draw src 7)]\<rparr>]\<rparr>)"
  by (simp add: registerHandler_def initial_def generateID_draw draw_advance advance_advance
      Let_def eval_nat_numeral)

text \<open>
  When the source repeats the value it gave as a secret code, the later registration
  is stored under the same key: the earlier user is replaced.
\<close>

lemma registration_replaces_user_on_repeated_code:
  assumes "src 5 = src 1"
  shows "users (run (initial src) [Register (Some first), Register (Some second)]) (draw src 1) =
     Some (second\<lparr>UserID := draw src 4, SecretCode := draw src 1,
          Playlists := Playlists second @
            [\<lparr>PlaylistID = draw src 6, PlaylistName = ''Default'',
              Songs = [defaultSong (draw src 7)]\<rparr>]\<rparr>)"
proof -
  from assms have "draw src 5 = draw src 1" by (simp add: draw_def)
  then show ?thesis
    by (simp add: registerHandler_def initial_def generateID_draw draw_advance advance_advance
        Let_def eval_nat_numeral)
qed

text \<open>
  Claim C6: \<open>loginHandler\<close> and \<open>viewProfile\<close> agree on every state and secret
  code: both return the stored user when the code is known and \<open>NotAuthorized\<close>
  otherwise, and both leave the state as it is.
\<close>

theorem login_viewProfile_equivalent:
  "loginHandler s secretCode = viewProfile s secretCode \<and>
   snd (loginHandler s secretCode) = s \<and> snd (viewProfile s secretCode) = s \<and>
   fst (viewProfile s secretCode) =
     (case users s secretCode of Some user \<Rightarrow> Inr user | None \<Rightarrow> Inl NotAuthorized)"
  by (simp add: loginHandler_def viewProfile_def sendError_simps split: option.splits)

text \<open>
  Claim C7: \<open>getSongDetail\<close> returns the first song with the given identifier,
  playlists in stored order and songs in playlist order; it fails with \<open>NotFound\<close>
  when no song of the user matches and with \<open>NotAuthorized\<close> when no user has the
  secret code; the state is unchanged.
\<close>

theorem getSongDetail_first_match:
  "getSongDetail s secretCode songID = (getSongDetail_spec s secretCode songID, s)"
  by (simp add: getSongDetail_def getSongDetail_spec_def playlists_scan_find sendError_simps
      split: option.splits)

text \<open>
  Claim C8, as amended: for a known secret code and a playlist identifier that one
  of the user's playlists has, \<open>addSongToPlaylist\<close> gives the new song the next
  identifier of the generator, whatever identifier the body carries, and appends it
  at the end of the first playlist with that identifier.  Nothing compares the new
  identifier with those in the store.
\<close>

theorem addSong_appends_generated_identifier:
  assumes "users s secretCode = Some user"
    and "\<exists>p\<in>set (Playlists user). PlaylistID p = playlistID"
  shows "\<exists>i. i < length (Playlists user) \<and> PlaylistID (Playlists user ! i) = playlistID \<and>
     (\<forall>k<i. PlaylistID (Playlists user ! k) \<noteq> playlistID) \<and>
     addSongToPlaylist s secretCode playlistID (Some decoded) =
       (Inr (decoded\<lparr>SongID := draw (randSrc s) 0\<rparr>),
        s\<lparr>users := (users s)(secretCode \<mapsto> user\<lparr>Playlists := (Playlists user)
             [i := (Playlists user ! i)\<lparr>Songs := Songs (Playlists user ! i) @
                      [decoded\<lparr>SongID := draw (randSrc s) 0\<rparr>]\<rparr>]\<rparr>),
          randSrc := advance (randSrc s) 1\<rparr>) \<and>
     addSongToPlaylist s secretCode playlistID (Some (decoded\<lparr>SongID := anyID\<rparr>)) =
       addSongToPlaylist s secretCode playlistID (Some decoded)"
proof -
  from assms(2) have "playlist_index playlistID (Playlists user) 0 \<noteq> None"
    by (simp add: playlist_index_None)
  then obtain m where m: "playlist_index playlistID (Playlists user) 0 = Some m" by blast
  from playlist_index_Some [OF m]
  have first: "m < length (Playlists user)" "PlaylistID (Playlists user ! m) = playlistID"
    "\<forall>k<m. PlaylistID (Playlists user ! k) \<noteq> playlistID" by auto
  have "addSongToPlaylist s secretCode playlistID (Some decoded) =
       (Inr (decoded\<lparr>SongID := draw (randSrc s) 0\<rparr>),
        s\<lparr>users := (users s)(secretCode \<mapsto> user\<lparr>Playlists := (Playlists user)
             [m := (Playlists user ! m)\<lparr>Songs := Songs (Playlists user ! m) @
                      [decoded\<lparr>SongID := draw (randSrc s) 0\<rparr>]\<rparr>]\<rparr>),
          randSrc := advance (randSrc s) 1\<rparr>)"
    using assms(1) m by (simp add: addSongToPlaylist_def generateID_draw Let_def)
  moreover have "addSongToPlaylist s secretCode playlistID (Some (decoded\<lparr>SongID := anyID\<rparr>)) =
       addSongToPlaylist s secretCode playlistID (Some decoded)"
    using assms(1) m by (simp add: addSongToPlaylist_def generateID_draw Let_def)
  ultimately show ?thesis using first by blast
qed

text \<open>Witness for C8: a song added to the default playlist of a fresh registration.\<close>

theorem addSong_appends_generated_identifier_witness:
  "users (registered []) ''1'' \<noteq> None \<and>
   fst (addSongToPlaylist (registered []) ''1'' ''2'' (Some (tune ''mine''))) = Inr (tune ''4'')"
proof -
  let ?user = "\<lparr>UserID = ''0'', SecretCode = ''1'', UserName = ''ann'',
       Email = ''ann@example.org'',
       Playlists = [\<lparr>PlaylistID = ''2'', PlaylistName = ''Default'',
                          Songs = [defaultSong ''3'']\<rparr>]\<rparr>"
  have u: "users (registered []) ''1'' = Some ?user" by (simp add: users_registered)
  have p: "\<exists>p\<in>set (Playlists ?user). PlaylistID p = ''2''" by simp
  from addSong_appends_generated_identifier [OF u p, of "tune ''mine''"]
  have "fst (addSongToPlaylist (registered []) ''1'' ''2'' (Some (tune ''mine''))) =
        Inr ((tune ''mine'')\<lparr>SongID := draw (randSrc (registered [])) 0\<rparr>)"
    by auto
  then show ?thesis
    by (simp add: u randSrc_registered draw_def decimal.simps tune_def)
qed

text \<open>
  Counterexample to C8 as stated: the registration body carries a playlist with a
  song whose identifier is 4.  The registration draws 0 to 3, so the song added next
  is given the identifier 4, which the store already holds.
\<close>

theorem fresh_identifier_counterexample:
  "reachable (registered [\<lparr>PlaylistID = ''p'', PlaylistName = ''mine'', Songs = [tune ''4'']\<rparr>]) \<and>
   users (registered [\<lparr>PlaylistID = ''p'', PlaylistName = ''mine'', Songs = [tune ''4'']\<rparr>]) ''1'' =
     Some \<lparr>UserID = ''0'', SecretCode = ''1'', UserName = ''ann'', Email = ''ann@example.org'',
       Playlists =
         [\<lparr>PlaylistID = ''p'', PlaylistName = ''mine'', Songs = [tune ''4'']\<rparr>,
          \<lparr>PlaylistID = ''2'', PlaylistName = ''Default'', Songs = [defaultSong ''3'']\<rparr>]\<rparr> \<and>
   fst (addSongToPlaylist
          (registered [\<lparr>PlaylistID = ''p'', PlaylistName = ''mine'', Songs = [tune ''4'']\<rparr>])
          ''1'' ''p'' (Some (tune ''mine''))) = Inr (tune ''4'') \<and>
   users (snd (addSongToPlaylist
          (registered [\<lparr>PlaylistID = ''p'', PlaylistName = ''mine'', Songs = [tune ''4'']\<rparr>])
          ''1'' ''p'' (Some (tune ''mine'')))) ''1'' =
     Some \<lparr>UserID = ''0'', SecretCode = ''1'', UserName = ''ann'', Email = ''ann@example.org'',
       Playlists =
         [\<lparr>PlaylistID = ''p'', PlaylistName = ''mine'', Songs = [tune ''4'', tune ''4'']\<rparr>,
          \<lparr>PlaylistID = ''2'', PlaylistName = ''Default'', Songs = [defaultSong ''3'']\<rparr>]\<rparr>"
  by (simp add: reachable_registered users_registered randSrc_registered addSongToPlaylist_def
      generateID_def decimal.simps tune_def Let_def)

text \<open>
  The same happens on every source: a registration body can carry the identifier that
  the fifth call of \<open>generateID\<close> will return.
\<close>

lemma identifier_repeats_for_every_source:
  "fst (addSongToPlaylist
         (snd (registerHandler (initial src)
            (Some (ann\<lparr>Playlists := [\<lparr>PlaylistID = ''p'', PlaylistName = ''mine'',
                                      Songs = [tune (draw src 4)]\<rparr>]\<rparr>))))
         (draw src 1) ''p'' (Some decoded)) =
   Inr (decoded\<lparr>SongID := draw src 4\<rparr>)"
  by (simp add: registerHandler_def addSongToPlaylist_def initial_def generateID_draw
      draw_advance advance_advance Let_def eval_nat_numeral)

text \<open>
  Claim C9: the map \<open>playlists\<close> is dead state.  It is empty in every reachable
  state; no request changes it; and no request reads it: with any other content of
  the map the response is the same and the state differs only in that map.
\<close>

theorem playlists_dead_state:
  "(reachable s \<longrightarrow> playlists s = Map.empty) \<and>
   playlists (snd (serve s req)) = playlists s \<and>
   serve (s\<lparr>playlists := m\<rparr>) req = (fst (serve s req), (snd (serve s req))\<lparr>playlists := m\<rparr>)"
  using reachable_playlists_empty serve_playlists serve_ignores_playlists by blast

text \<open>Witness for C9: a state reached by a registration and an added song.\<close>

theorem playlists_dead_state_witness:
  "reachable after_add \<and> playlists after_add = Map.empty"
  using playlists_dead_state [of after_add] reachable_after_add by blast

text \<open>
  Claim C10: whenever a request is answered with an error, whichever the route and
  the error kind, the state after the request is the state before it: every user,
  playlist and song, and also the generator.
\<close>

theorem failure_atomicity:
  "fst (serve s req) = Inl e \<Longrightarrow> snd (serve s req) = s"
  by (cases req)
    (simp_all add: map_sum_id_Inl loginHandler_failure registerHandler_failure
      viewProfile_failure createPlaylist_failure deleteSongFromPlaylist_failure
      addSongToPlaylist_failure deletePlaylist_failure getSongDetail_failure)

text \<open>Witness for C10: the rejected removal of a playlist's only song.\<close>

theorem failure_atomicity_witness:
  "fst (serve (registered []) (DeleteSongFromPlaylist ''1'' ''3'' ''2'')) = Inl InvariantViolation \<and>
   snd (serve (registered []) (DeleteSongFromPlaylist ''1'' ''3'' ''2'')) = registered []"
proof -
  have "fst (serve (registered []) (DeleteSongFromPlaylist ''1'' ''3'' ''2'')) =
        Inl InvariantViolation"
    by (simp add: deleteSongFromPlaylist_def users_registered sendError_simps)
  with failure_atomicity [of "registered []" "DeleteSongFromPlaylist ''1'' ''3'' ''2''"
      InvariantViolation]
  show ?thesis by simp
qed

end
